theory Spec2Isabelle
  imports Main
begin

section \<open>Data model\<close>

text \<open>
  The server (\<^verbatim>\<open>server/routes/tasks.js\<close>) keeps three PostgreSQL tables, \<^verbatim>\<open>profiles\<close>,
  \<^verbatim>\<open>tasks\<close> and \<^verbatim>\<open>task_collaborators\<close>. A table is a list of rows, in storage order.
  Keys are uuids, of which the routes only use equality; they are natural numbers here, so
  a request parameter that is not a well-formed uuid is outside the model. Timestamps are
  integers. Strings are ASCII strings, on which the length that the validators count is
  the length of the list.
\<close>

type_synonym uuid = nat
type_synonym timestamp = int

record profile =
  p_id :: uuid
  email :: string
  name :: string
  avatar_url :: "string option"

record task =
  t_id :: uuid
  title :: string
  description :: string
  status :: string
  priority :: string
  due_date :: "timestamp option"
  created_by :: uuid
  created_at :: timestamp
  updated_at :: timestamp

record collaborator =
  tc_id :: uuid
  task_id :: uuid
  user_id :: uuid
  permission :: string
  tc_created_at :: timestamp

text \<open>One element of the \<^verbatim>\<open>collaborators\<close> array built by \<^verbatim>\<open>json_build_object\<close> in the list query;
  the three user columns come from a left join and may be null.\<close>

record collaborator_json =
  cj_id :: uuid
  cj_user_id :: uuid
  cj_permission :: string
  user_name :: "string option"
  user_email :: "string option"
  user_avatar :: "string option"

text \<open>One row of the list query: \<^verbatim>\<open>t.*\<close>, the creator columns of the left-joined profile, and
  the \<^verbatim>\<open>collaborators\<close> column, a JSON value that is \<open>None\<close> when it is null.\<close>

record task_row =
  row_task :: task
  creator_name :: "string option"
  creator_email :: "string option"
  creator_avatar :: "string option"
  collaborators :: "collaborator_json list option"

text \<open>The events sent with \<^verbatim>\<open>req.io.emit\<close>, each with the acting user \<^verbatim>\<open>req.user\<close>.\<close>

datatype event =
    Task_created task profile
  | Task_updated "task option" profile
  | Task_deleted uuid profile
  | Collaborator_added uuid collaborator profile profile
  | Collaborator_removed uuid uuid profile

text \<open>The bodies the routes send: \<^verbatim>\<open>{error: msg}\<close>, \<^verbatim>\<open>{errors: [...]}\<close> (parameter and message of
  each failed validation), \<^verbatim>\<open>{message: msg}\<close>, a task row (\<open>None\<close> for \<^verbatim>\<open>undefined\<close>), the rows
  of the list query, a collaborator row with its user, and the rows of the user search.\<close>

datatype json =
    Error_json string
  | Errors_json "(string \<times> string) list"
  | Message_json string
  | Task_json "task option"
  | Rows_json "task_row list"
  | Collaborator_json collaborator profile
  | Users_json "profile list"

datatype response = Response (code: nat) (payload: json)

record server =
  profiles :: "profile list"
  tasks :: "task list"
  task_collaborators :: "collaborator list"
  emitted :: "event list"

text \<open>Request bodies. A field that is absent (\<^verbatim>\<open>undefined\<close>) is \<open>None\<close>; fields other than these
  are never read by the routes.\<close>

record task_body =
  b_title :: "string option"
  b_description :: "string option"
  b_status :: "string option"
  b_priority :: "string option"
  b_due_date :: "string option"

record collaborator_body =
  b_email :: "string option"
  b_permission :: "string option"

text \<open>
  What the routes take from libraries outside the repository: the \<^verbatim>\<open>isEmail\<close> and
  \<^verbatim>\<open>isISO8601\<close> validators of express-validator, and the JavaScript \<^verbatim>\<open>new Date(s)\<close>
  as the timestamp it denotes, \<open>None\<close> when it is \<^verbatim>\<open>Invalid Date\<close>. They are parameters of the
  model. The validator accepts dates that \<^verbatim>\<open>new Date\<close> does not parse (the basic format
  \<^verbatim>\<open>20261201\<close> is one), so the two are independent.
\<close>

record ext =
  isEmail :: "string \<Rightarrow> bool"
  isISO8601 :: "string \<Rightarrow> bool"
  newDate :: "string \<Rightarrow> timestamp option"

section \<open>Validation chains\<close>

definition is_space :: "char \<Rightarrow> bool" where
  "is_space c = (c \<in> set [CHR '' '', CHR 0x09, CHR 0x0A, CHR 0x0B, CHR 0x0C, CHR 0x0D])"

text \<open>The \<^verbatim>\<open>trim()\<close> sanitizer: whitespace removed at both ends.\<close>

definition trim :: "string \<Rightarrow> string" where
  "trim s = rev (dropWhile is_space (rev (dropWhile is_space s)))"

definition isLength :: "nat \<Rightarrow> nat \<Rightarrow> string \<Rightarrow> bool" where
  "isLength mn mx s = (mn \<le> length s \<and> length s \<le> mx)"

definition isIn :: "string list \<Rightarrow> string \<Rightarrow> bool" where
  "isIn vs s = (s \<in> set vs)"

text \<open>A chain \<^verbatim>\<open>body(field).optional().v()\<close> checks nothing when the field is absent; a chain
  without \<^verbatim>\<open>optional()\<close> checks the empty string then.\<close>

definition optional_chain :: "string \<Rightarrow> string \<Rightarrow> (string \<Rightarrow> bool) \<Rightarrow> string option \<Rightarrow> (string \<times> string) list" where
  "optional_chain field msg ok v =
     (case v of None \<Rightarrow> [] | Some s \<Rightarrow> if ok s then [] else [(field, msg)])"

definition required_chain :: "string \<Rightarrow> string \<Rightarrow> (string \<Rightarrow> bool) \<Rightarrow> string option \<Rightarrow> (string \<times> string) list" where
  "required_chain field msg ok v =
     (let s = (case v of None \<Rightarrow> [] | Some s \<Rightarrow> s) in if ok s then [] else [(field, msg)])"

text \<open>\<^verbatim>\<open>router.post('/')\<close>: the title is trimmed in the request before it is checked.\<close>

definition create_sanitize :: "task_body \<Rightarrow> task_body" where
  "create_sanitize b = b\<lparr>b_title := Some (trim (case b_title b of None \<Rightarrow> [] | Some s \<Rightarrow> s))\<rparr>"

definition create_errors :: "ext \<Rightarrow> task_body \<Rightarrow> (string \<times> string) list" where
  "create_errors x b =
     required_chain ''title'' ''Title is required and must be less than 255 characters''
       (isLength 1 255) (b_title b)
   @ optional_chain ''description'' ''Description must be less than 1000 characters''
       (isLength 0 1000) (b_description b)
   @ optional_chain ''status'' ''Invalid status''
       (isIn [''pending'', ''in_progress'', ''completed'']) (b_status b)
   @ optional_chain ''priority'' ''Invalid priority''
       (isIn [''low'', ''medium'', ''high'']) (b_priority b)
   @ optional_chain ''due_date'' ''Invalid due date format'' (isISO8601 x) (b_due_date b)"

text \<open>\<^verbatim>\<open>router.put('/:id')\<close>: the same chains, all optional, with the default message.\<close>

definition update_sanitize :: "task_body \<Rightarrow> task_body" where
  "update_sanitize b = b\<lparr>b_title := map_option trim (b_title b)\<rparr>"

definition update_errors :: "ext \<Rightarrow> task_body \<Rightarrow> (string \<times> string) list" where
  "update_errors x b =
     optional_chain ''title'' ''Invalid value'' (isLength 1 255) (b_title b)
   @ optional_chain ''description'' ''Invalid value'' (isLength 0 1000) (b_description b)
   @ optional_chain ''status'' ''Invalid value''
       (isIn [''pending'', ''in_progress'', ''completed'']) (b_status b)
   @ optional_chain ''priority'' ''Invalid value''
       (isIn [''low'', ''medium'', ''high'']) (b_priority b)
   @ optional_chain ''due_date'' ''Invalid value'' (isISO8601 x) (b_due_date b)"

definition collaborator_errors :: "ext \<Rightarrow> collaborator_body \<Rightarrow> (string \<times> string) list" where
  "collaborator_errors x b =
     required_chain ''email'' ''Valid email is required'' (isEmail x) (b_email b)
   @ required_chain ''permission'' ''Permission must be read or write''
       (isIn [''read'', ''write'']) (b_permission b)"

section \<open>SQL operators\<close>

text \<open>\<^verbatim>\<open>xs LEFT JOIN ys ON on\<close>: every row of \<open>xs\<close> with each matching row of \<open>ys\<close>, or with null
  when none matches.\<close>

definition left_join :: "('a \<Rightarrow> 'b \<Rightarrow> bool) \<Rightarrow> 'a list \<Rightarrow> 'b list \<Rightarrow> ('a \<times> 'b option) list" where
  "left_join on xs ys =
     concat (map (\<lambda>x. case filter (on x) ys of
                         [] \<Rightarrow> [(x, None)]
                       | ms \<Rightarrow> map (\<lambda>y. (x, Some y)) ms) xs)"

text \<open>\<^verbatim>\<open>GROUP BY\<close>: the rows with equal key, one group for each key.\<close>

definition group_by :: "('r \<Rightarrow> 'k) \<Rightarrow> 'r list \<Rightarrow> 'r list list" where
  "group_by key rows = map (\<lambda>k. filter (\<lambda>r. key r = k) rows) (remdups (map key rows))"

text \<open>\<^verbatim>\<open>json_agg\<close> is null over no rows; \<^verbatim>\<open>COALESCE\<close> replaces null by its second argument.\<close>

definition json_agg :: "'a list \<Rightarrow> 'a list option" where
  "json_agg xs = (if xs = [] then None else Some xs)"

definition coalesce :: "'a option \<Rightarrow> 'a \<Rightarrow> 'a option" where
  "coalesce v d = (case v of None \<Rightarrow> Some d | Some a \<Rightarrow> Some a)"

text \<open>
  \<^verbatim>\<open>s LIKE pattern\<close>: in the pattern \<^verbatim>\<open>%\<close> stands for any sequence of characters, \<^verbatim>\<open>_\<close> for
  any one character, and a backslash makes the next character stand for itself. A
  pattern that ends in a lone backslash is an error in PostgreSQL; the patterns of the
  search route end in \<^verbatim>\<open>%\<close>. \<^verbatim>\<open>ILIKE\<close> is \<^verbatim>\<open>LIKE\<close> without regard to case.
\<close>

fun like_match :: "string \<Rightarrow> string \<Rightarrow> bool" where
  "like_match [] s = (s = [])"
| "like_match (p # ps) s =
     (if p = CHR ''%'' then
        (like_match ps s \<or> (case s of [] \<Rightarrow> False | _ # t \<Rightarrow> like_match (p # ps) t))
      else if p = CHR ''_'' then
        (case s of [] \<Rightarrow> False | _ # t \<Rightarrow> like_match ps t)
      else if p = CHR 0x5C then
        (case ps of [] \<Rightarrow> False
         | q # qs \<Rightarrow> (case s of [] \<Rightarrow> False | c # t \<Rightarrow> c = q \<and> like_match qs t))
      else
        (case s of [] \<Rightarrow> False | c # t \<Rightarrow> c = p \<and> like_match ps t))"

definition lower_char :: "char \<Rightarrow> char" where
  "lower_char c =
     (if (65::nat) \<le> of_char c \<and> of_char c \<le> (90::nat) then char_of (of_char c + (32::nat)) else c)"

definition lower :: "string \<Rightarrow> string" where
  "lower s = map lower_char s"

definition ilike :: "string \<Rightarrow> string \<Rightarrow> bool" where
  "ilike s pattern = like_match (lower pattern) (lower s)"

text \<open>The characters that are not literal in a pattern.\<close>

definition wildcard :: "char \<Rightarrow> bool" where
  "wildcard c = (c = CHR ''%'' \<or> c = CHR ''_'' \<or> c = CHR 0x5C)"

text \<open>A text value the database takes as a parameter: PostgreSQL rejects a string that holds
  the character with code 0.\<close>

definition storable :: "string \<Rightarrow> bool" where
  "storable s = (CHR 0x00 \<notin> set s)"

section \<open>The task routes\<close>

text \<open>
  Each route is a function of the request (the authenticated user \<^verbatim>\<open>req.user\<close>, the path
  and query parameters, the body) and of the server state, to the response sent and the
  state left behind. The clock (\<^verbatim>\<open>NOW()\<close>) and the uuid the database generates for a new
  row are arguments. A statement the database rejects raises in the route and is answered
  by the \<^verbatim>\<open>catch\<close> block with status 500.
\<close>

subsection \<open>Get all tasks for the authenticated user\<close>

type_synonym list_join = "((task \<times> profile option) \<times> collaborator option) \<times> profile option"

definition list_key :: "list_join \<Rightarrow> uuid \<times> string option \<times> string option \<times> string option option" where
  "list_key r =
     (case r of (((t, p), tc), cp) \<Rightarrow>
        (t_id t, map_option name p, map_option email p, map_option avatar_url p))"

definition build_collaborator :: "collaborator \<Rightarrow> profile option \<Rightarrow> collaborator_json" where
  "build_collaborator tc cp =
     \<lparr>cj_id = tc_id tc, cj_user_id = user_id tc, cj_permission = permission tc,
      user_name = map_option name cp, user_email = map_option email cp,
      user_avatar = (case cp of None \<Rightarrow> None | Some c \<Rightarrow> avatar_url c)\<rparr>"

text \<open>The aggregate \<^verbatim>\<open>json_agg(...) FILTER (WHERE tc.id IS NOT NULL)\<close> over a group.\<close>

definition agg_collaborators :: "list_join list \<Rightarrow> collaborator_json list option" where
  "agg_collaborators g =
     json_agg (concat (map (\<lambda>r. case r of (((t, p), tc), cp) \<Rightarrow>
                              (case tc of None \<Rightarrow> [] | Some c \<Rightarrow> [build_collaborator c cp])) g))"

text \<open>The selected columns of a group. \<^verbatim>\<open>t.*\<close> may be selected under \<^verbatim>\<open>GROUP BY t.id\<close> since
  \<^verbatim>\<open>id\<close> is the primary key of \<^verbatim>\<open>tasks\<close>: they are read from the first row of the group.\<close>

definition select_row :: "list_join list \<Rightarrow> task_row list" where
  "select_row g =
     (case g of [] \<Rightarrow> []
      | (((t, p), tc), cp) # _ \<Rightarrow>
          [\<lparr>row_task = t,
            creator_name = map_option name p,
            creator_email = map_option email p,
            creator_avatar = (case p of None \<Rightarrow> None | Some c \<Rightarrow> avatar_url c),
            collaborators = coalesce (agg_collaborators g) []\<rparr>])"

definition list_where :: "server \<Rightarrow> uuid \<Rightarrow> task \<Rightarrow> bool" where
  "list_where srv uid t =
     (created_by t = uid \<or>
      t_id t \<in> set (map task_id (filter (\<lambda>c. user_id c = uid) (task_collaborators srv))))"

text \<open>The \<^verbatim>\<open>FROM\<close> clause: tasks, left-joined with the creator's profile, the grants of the
  task and the profile of each grant's user.\<close>

definition list_from :: "server \<Rightarrow> list_join list" where
  "list_from srv =
     left_join (\<lambda>r cp. case snd r of None \<Rightarrow> False | Some tc \<Rightarrow> user_id tc = p_id cp)
       (left_join (\<lambda>r tc. t_id (fst r) = task_id tc)
          (left_join (\<lambda>t p. created_by t = p_id p) (tasks srv) (profiles srv))
          (task_collaborators srv))
       (profiles srv)"

text \<open>\<^verbatim>\<open>ORDER BY t.created_at DESC\<close> is a stable sort on the negated timestamp: rows of equal
  \<^verbatim>\<open>created_at\<close> come in an order the database is free to choose.\<close>

definition list_query :: "server \<Rightarrow> uuid \<Rightarrow> task_row list" where
  "list_query srv uid =
     sort_key (\<lambda>r. - created_at (row_task r))
       (concat (map select_row
          (group_by list_key
             (filter (\<lambda>r. list_where srv uid (fst (fst (fst r)))) (list_from srv)))))"

definition get_tasks :: "profile \<Rightarrow> server \<Rightarrow> response \<times> server" where
  "get_tasks user srv = (Response 200 (Rows_json (list_query srv (p_id user))), srv)"

subsection \<open>Create a new task\<close>

text \<open>Modelled from the spec: \<^verbatim>\<open>server/database/schema.sql\<close> is not among the sources. The spec
  gives a task a unique \<^verbatim>\<open>id\<close> and a \<^verbatim>\<open>created_by\<close> that always references an existing
  principal, so an insert that breaks either is rejected; \<^verbatim>\<open>created_at\<close> and \<^verbatim>\<open>updated_at\<close> of
  a new row are the time of the insert.\<close>

definition insert_task :: "task \<Rightarrow> server \<Rightarrow> server option" where
  "insert_task row srv =
     (if t_id row \<in> set (map t_id (tasks srv)) \<or> created_by row \<notin> set (map p_id (profiles srv))
      then None
      else Some (srv\<lparr>tasks := tasks srv @ [row]\<rparr>))"

text \<open>The row of the \<^verbatim>\<open>INSERT\<close>: the values destructured from the body, with their defaults,
  \<^verbatim>\<open>due_date ? new Date(due_date) : null\<close> and \<^verbatim>\<open>req.user.id\<close>. The database does not take an
  \<^verbatim>\<open>Invalid Date\<close> (\<open>insert_rejected\<close> below), so the row has a due date only for a string
  that \<^verbatim>\<open>new Date\<close> parses.\<close>

definition insert_values :: "ext \<Rightarrow> timestamp \<Rightarrow> uuid \<Rightarrow> profile \<Rightarrow> task_body \<Rightarrow> task" where
  "insert_values x now new_id user body =
     \<lparr>t_id = new_id,
      title = (case b_title body of None \<Rightarrow> [] | Some s \<Rightarrow> s),
      description = (case b_description body of None \<Rightarrow> [] | Some s \<Rightarrow> s),
      status = (case b_status body of None \<Rightarrow> ''pending'' | Some s \<Rightarrow> s),
      priority = (case b_priority body of None \<Rightarrow> ''medium'' | Some s \<Rightarrow> s),
      due_date = (case b_due_date body of None \<Rightarrow> None
                  | Some s \<Rightarrow> if s = [] then None else newDate x s),
      created_by = p_id user,
      created_at = now,
      updated_at = now\<rparr>"

text \<open>The parameters of the \<^verbatim>\<open>INSERT\<close> that the database rejects: a text that is not storable,
  and the \<^verbatim>\<open>Invalid Date\<close> that \<^verbatim>\<open>new Date(due_date)\<close> gives for a string it does not parse.\<close>

definition insert_rejected :: "ext \<Rightarrow> task_body \<Rightarrow> bool" where
  "insert_rejected x body =
     (\<not> storable (case b_title body of None \<Rightarrow> [] | Some s \<Rightarrow> s) \<or>
      \<not> storable (case b_description body of None \<Rightarrow> [] | Some s \<Rightarrow> s) \<or>
      \<not> storable (case b_status body of None \<Rightarrow> ''pending'' | Some s \<Rightarrow> s) \<or>
      \<not> storable (case b_priority body of None \<Rightarrow> ''medium'' | Some s \<Rightarrow> s) \<or>
      (case b_due_date body of None \<Rightarrow> False | Some s \<Rightarrow> s \<noteq> [] \<and> newDate x s = None))"

definition post_tasks :: "ext \<Rightarrow> timestamp \<Rightarrow> uuid \<Rightarrow> profile \<Rightarrow> task_body \<Rightarrow> server \<Rightarrow> response \<times> server" where
  "post_tasks x now new_id user body0 srv =
     (let body = create_sanitize body0; errors = create_errors x body in
      if errors \<noteq> [] then (Response 400 (Errors_json errors), srv)
      else
        let row = insert_values x now new_id user body
        in case (if insert_rejected x body then None else insert_task row srv) of
             None \<Rightarrow> (Response 500 (Error_json ''Failed to create task''), srv)
           | Some srv' \<Rightarrow>
               (Response 201 (Task_json (Some row)),
                srv'\<lparr>emitted := emitted srv' @ [Task_created row user]\<rparr>))"

subsection \<open>Update a task\<close>

text \<open>The permission query: the task with this id, left-joined with the grants of the user
  on it, where the user created the task or the grant is \<^verbatim>\<open>write\<close>.\<close>

definition permission_query :: "server \<Rightarrow> uuid \<Rightarrow> uuid \<Rightarrow> (task \<times> collaborator option) list" where
  "permission_query srv taskId uid =
     filter (\<lambda>r. case r of (t, tc) \<Rightarrow>
                t_id t = taskId \<and>
                (created_by t = uid \<or> (case tc of None \<Rightarrow> False | Some c \<Rightarrow> permission c = ''write'')))
       (left_join (\<lambda>t tc. t_id t = task_id tc \<and> user_id tc = uid) (tasks srv) (task_collaborators srv))"

text \<open>The \<^verbatim>\<open>SET\<close> clauses, one for each of the five keys present in the body, and
  \<^verbatim>\<open>updated_at = NOW()\<close>. The value of \<^verbatim>\<open>due_date\<close> is \<^verbatim>\<open>new Date(due_date)\<close>, and the string
  itself when it is empty. The database takes neither the empty string nor an
  \<^verbatim>\<open>Invalid Date\<close> as a timestamp (\<open>update_rejected\<close> below), so the row has a due date only
  for a string that \<^verbatim>\<open>new Date\<close> parses.\<close>

definition no_updates :: "task_body \<Rightarrow> bool" where
  "no_updates b =
     (b_title b = None \<and> b_description b = None \<and> b_status b = None \<and> b_priority b = None \<and>
      b_due_date b = None)"

definition set_columns :: "ext \<Rightarrow> timestamp \<Rightarrow> task_body \<Rightarrow> task \<Rightarrow> task" where
  "set_columns x now b t =
     t\<lparr>title := (case b_title b of None \<Rightarrow> title t | Some s \<Rightarrow> s),
       description := (case b_description b of None \<Rightarrow> description t | Some s \<Rightarrow> s),
       status := (case b_status b of None \<Rightarrow> status t | Some s \<Rightarrow> s),
       priority := (case b_priority b of None \<Rightarrow> priority t | Some s \<Rightarrow> s),
       due_date := (case b_due_date b of None \<Rightarrow> due_date t
                    | Some s \<Rightarrow> if s = [] then None else newDate x s),
       updated_at := now\<rparr>"

text \<open>The parameters of the \<^verbatim>\<open>UPDATE\<close> that the database rejects: a text that is not storable, an
  empty string for the timestamp, and the \<^verbatim>\<open>Invalid Date\<close> of a string that \<^verbatim>\<open>new Date\<close> does not
  parse.\<close>

definition update_rejected :: "ext \<Rightarrow> task_body \<Rightarrow> bool" where
  "update_rejected x b =
     ((case b_title b of None \<Rightarrow> False | Some s \<Rightarrow> \<not> storable s) \<or>
      (case b_description b of None \<Rightarrow> False | Some s \<Rightarrow> \<not> storable s) \<or>
      (case b_status b of None \<Rightarrow> False | Some s \<Rightarrow> \<not> storable s) \<or>
      (case b_priority b of None \<Rightarrow> False | Some s \<Rightarrow> \<not> storable s) \<or>
      (case b_due_date b of None \<Rightarrow> False | Some s \<Rightarrow> s = [] \<or> newDate x s = None))"

definition update_query :: "ext \<Rightarrow> timestamp \<Rightarrow> task_body \<Rightarrow> uuid \<Rightarrow> task list \<Rightarrow> task list" where
  "update_query x now b taskId ts = map (\<lambda>t. if t_id t = taskId then set_columns x now b t else t) ts"

text \<open>The \<^verbatim>\<open>UPDATE\<close> runs after the permission query and the check for present fields; when
  the database rejects it, nothing is written and nothing is emitted.\<close>

definition put_task :: "ext \<Rightarrow> timestamp \<Rightarrow> profile \<Rightarrow> uuid \<Rightarrow> task_body \<Rightarrow> server \<Rightarrow> response \<times> server" where
  "put_task x now user taskId body0 srv =
     (let body = update_sanitize body0; errors = update_errors x body in
      if errors \<noteq> [] then (Response 400 (Errors_json errors), srv)
      else if permission_query srv taskId (p_id user) = [] then
        (Response 403 (Error_json ''Permission denied''), srv)
      else if no_updates body then
        (Response 400 (Error_json ''No valid fields to update''), srv)
      else if update_rejected x body then
        (Response 500 (Error_json ''Failed to update task''), srv)
      else
        let ts = update_query x now body taskId (tasks srv);
            row = (case filter (\<lambda>t. t_id t = taskId) ts of [] \<Rightarrow> None | r # _ \<Rightarrow> Some r)
        in (Response 200 (Task_json row),
            srv\<lparr>tasks := ts, emitted := emitted srv @ [Task_updated row user]\<rparr>))"

subsection \<open>Delete a task\<close>

definition owner_query :: "server \<Rightarrow> uuid \<Rightarrow> uuid \<Rightarrow> task list" where
  "owner_query srv taskId uid = filter (\<lambda>t. t_id t = taskId \<and> created_by t = uid) (tasks srv)"

text \<open>Modelled from the spec: \<^verbatim>\<open>server/database/schema.sql\<close> is not among the sources. The route
  deletes from \<^verbatim>\<open>tasks\<close> only; by the spec the delete cascades and removes all collaborator
  grants of the task.\<close>

definition delete_query :: "uuid \<Rightarrow> server \<Rightarrow> server" where
  "delete_query taskId srv =
     srv\<lparr>tasks := filter (\<lambda>t. t_id t \<noteq> taskId) (tasks srv),
         task_collaborators := filter (\<lambda>c. task_id c \<noteq> taskId) (task_collaborators srv)\<rparr>"

definition delete_task :: "profile \<Rightarrow> uuid \<Rightarrow> server \<Rightarrow> response \<times> server" where
  "delete_task user taskId srv =
     (if owner_query srv taskId (p_id user) = [] then
        (Response 403 (Error_json ''Permission denied''), srv)
      else
        let srv' = delete_query taskId srv in
        (Response 200 (Message_json ''Task deleted successfully''),
         srv'\<lparr>emitted := emitted srv' @ [Task_deleted taskId user]\<rparr>))"

subsection \<open>Add collaborator to task\<close>

text \<open>Modelled from the spec: \<^verbatim>\<open>server/database/schema.sql\<close> is not among the sources. The
  \<^verbatim>\<open>id\<close> of a grant is its key, so an insert with an \<^verbatim>\<open>id\<close> in use is rejected; \<^verbatim>\<open>created_at\<close>
  of a new row is the time of the insert.\<close>

text \<open>The email and the permission reach the database after \<^verbatim>\<open>isEmail\<close> and \<^verbatim>\<open>isIn\<close>, whose
  patterns and values have no character with code 0.\<close>

definition insert_collaborator :: "collaborator \<Rightarrow> server \<Rightarrow> server option" where
  "insert_collaborator row srv =
     (if tc_id row \<in> set (map tc_id (task_collaborators srv)) then None
      else Some (srv\<lparr>task_collaborators := task_collaborators srv @ [row]\<rparr>))"

definition post_collaborators ::
  "ext \<Rightarrow> timestamp \<Rightarrow> uuid \<Rightarrow> profile \<Rightarrow> uuid \<Rightarrow> collaborator_body \<Rightarrow> server \<Rightarrow> response \<times> server" where
  "post_collaborators x now new_id user taskId body srv =
     (let errors = collaborator_errors x body in
      if errors \<noteq> [] then (Response 400 (Errors_json errors), srv)
      else if owner_query srv taskId (p_id user) = [] then
        (Response 403 (Error_json ''Permission denied''), srv)
      else
        case (case b_email body of None \<Rightarrow> []
              | Some e \<Rightarrow> filter (\<lambda>p. email p = e) (profiles srv)) of
          [] \<Rightarrow> (Response 404 (Error_json ''User not found''), srv)
        | collaboratorUser # _ \<Rightarrow>
            if filter (\<lambda>c. task_id c = taskId \<and> user_id c = p_id collaboratorUser)
                 (task_collaborators srv) \<noteq> []
            then (Response 400 (Error_json ''User is already a collaborator''), srv)
            else
              (case b_permission body of
                 None \<Rightarrow> (Response 500 (Error_json ''Failed to add collaborator''), srv)
               | Some perm \<Rightarrow>
                   let row = \<lparr>tc_id = new_id, task_id = taskId, user_id = p_id collaboratorUser,
                              permission = perm, tc_created_at = now\<rparr>
                   in (case insert_collaborator row srv of
                         None \<Rightarrow> (Response 500 (Error_json ''Failed to add collaborator''), srv)
                       | Some srv' \<Rightarrow>
                           (Response 201 (Collaborator_json row collaboratorUser),
                            srv'\<lparr>emitted := emitted srv' @
                                   [Collaborator_added taskId row collaboratorUser user]\<rparr>))))"

subsection \<open>Remove collaborator from task\<close>

definition delete_collaborator :: "profile \<Rightarrow> uuid \<Rightarrow> uuid \<Rightarrow> server \<Rightarrow> response \<times> server" where
  "delete_collaborator user taskId userId srv =
     (if owner_query srv taskId (p_id user) = [] then
        (Response 403 (Error_json ''Permission denied''), srv)
      else
        (Response 200 (Message_json ''Collaborator removed successfully''),
         srv\<lparr>task_collaborators :=
               filter (\<lambda>c. \<not> (task_id c = taskId \<and> user_id c = userId)) (task_collaborators srv),
             emitted := emitted srv @ [Collaborator_removed taskId userId user]\<rparr>))"

subsection \<open>Search users for collaboration\<close>

text \<open>The query parameter \<^verbatim>\<open>q\<close> is \<open>None\<close> when absent. Without \<^verbatim>\<open>ORDER BY\<close>, \<^verbatim>\<open>LIMIT 10\<close> keeps
  the first ten matching rows in storage order. The database rejects a pattern that is not
  storable text.\<close>

definition search_query :: "server \<Rightarrow> string \<Rightarrow> uuid \<Rightarrow> profile list" where
  "search_query srv pattern uid =
     take 10 (filter (\<lambda>p. (ilike (email p) pattern \<or> ilike (name p) pattern) \<and> p_id p \<noteq> uid)
                (profiles srv))"

definition get_search_users :: "profile \<Rightarrow> string option \<Rightarrow> server \<Rightarrow> response \<times> server" where
  "get_search_users user q srv =
     (case q of
        None \<Rightarrow> (Response 200 (Users_json []), srv)
      | Some s \<Rightarrow>
          if s = [] \<or> length s < 2 then (Response 200 (Users_json []), srv)
          else if \<not> storable (''%'' @ s @ ''%'') then
            (Response 500 (Error_json ''Failed to search users''), srv)
          else (Response 200 (Users_json (search_query srv (''%'' @ s @ ''%'') (p_id user))), srv))"

section \<open>The client's task list\<close>

text \<open>
  \<^verbatim>\<open>src/contexts/TaskContext.tsx\<close> holds the tasks of the session in React state and changes
  them in the socket listeners. A task on the client is a JavaScript object, with whatever
  fields the server sent: a map from field names to values. The spread
  \<^verbatim>\<open>{ ...task, ...data.task }\<close> is the first map overridden by the second.
\<close>

datatype jvalue = JNull | JString string | JNumber int | JArray "jvalue list"

type_synonym jtask = "string \<rightharpoonup> jvalue"

text \<open>\<^verbatim>\<open>a === b\<close> on field values, \<open>None\<close> for \<^verbatim>\<open>undefined\<close>; two arrays that come from different
  messages are different objects.\<close>

fun strict_equal :: "jvalue option \<Rightarrow> jvalue option \<Rightarrow> bool" where
  "strict_equal None None = True"
| "strict_equal (Some JNull) (Some JNull) = True"
| "strict_equal (Some (JString a)) (Some (JString b)) = (a = b)"
| "strict_equal (Some (JNumber a)) (Some (JNumber b)) = (a = b)"
| "strict_equal _ _ = False"

definition task_created :: "jtask \<Rightarrow> jtask list \<Rightarrow> jtask list" where
  "task_created data_task prev = data_task # prev"

definition task_updated :: "jtask \<Rightarrow> jtask list \<Rightarrow> jtask list" where
  "task_updated data_task prev =
     map (\<lambda>task. if strict_equal (task ''id'') (data_task ''id'') then task ++ data_task else task) prev"

definition task_deleted :: "jvalue option \<Rightarrow> jtask list \<Rightarrow> jtask list" where
  "task_deleted taskId prev = filter (\<lambda>task. \<not> strict_equal (task ''id'') taskId) prev"

section \<open>The field constraints of a task\<close>


section \<open>An example state\<close>

text \<open>Three registered users, one task of Alice's, shared with Bob for writing. The stand-ins
  for the library functions know one date: the validator accepts its extended and its basic
  format, and \<^verbatim>\<open>new Date\<close> parses the extended format only.\<close>

definition ex_ext :: ext where
  "ex_ext = \<lparr>isEmail = (\<lambda>s. CHR ''@'' \<in> set s),
             isISO8601 = (\<lambda>s. s = ''2026-12-01'' \<or> s = ''20261201''),
             newDate = (\<lambda>s. if s = ''2026-12-01'' then Some 1796083200 else None)\<rparr>"

definition alice :: profile where
  "alice = \<lparr>p_id = 1, email = ''alice@example.com'', name = ''Alice'', avatar_url = None\<rparr>"

definition bob :: profile where
  "bob = \<lparr>p_id = 2, email = ''bob@example.com'', name = ''Bob'', avatar_url = None\<rparr>"

definition carol :: profile where
  "carol = \<lparr>p_id = 3, email = ''carol@example.com'', name = ''Carol'', avatar_url = None\<rparr>"

definition draft_report :: task where
  "draft_report = \<lparr>t_id = 10, title = ''Draft report'', description = [], status = ''pending'',
     priority = ''medium'', due_date = None, created_by = 1, created_at = 100, updated_at = 100\<rparr>"

definition bob_writes :: collaborator where
  "bob_writes = \<lparr>tc_id = 20, task_id = 10, user_id = 2, permission = ''write'', tc_created_at = 110\<rparr>"

definition ex_server :: server where
  "ex_server = \<lparr>profiles = [alice, bob, carol], tasks = [draft_report],
     task_collaborators = [bob_writes], emitted = []\<rparr>"

text \<open>The same state before the task is shared, and the row of the list query for the task.\<close>

definition unshared :: server where
  "unshared = ex_server\<lparr>task_collaborators := []\<rparr>"

definition draft_row :: task_row where
  "draft_row = \<lparr>row_task = draft_report, creator_name = Some ''Alice'',
     creator_email = Some ''alice@example.com'', creator_avatar = None, collaborators = Some []\<rparr>"

definition no_fields :: task_body where
  "no_fields = \<lparr>b_title = None, b_description = None, b_status = None, b_priority = None,
     b_due_date = None\<rparr>"

definition local_task :: jtask where
  "local_task = [''id'' \<mapsto> JString ''t10'', ''title'' \<mapsto> JString ''Draft report'',
     ''status'' \<mapsto> JString ''pending'', ''creator_name'' \<mapsto> JString ''Alice'',
     ''collaborators'' \<mapsto> JArray [JString ''bob'']]"

definition other_task :: jtask where
  "other_task = [''id'' \<mapsto> JString ''t11'', ''title'' \<mapsto> JString ''Book venue'',
     ''status'' \<mapsto> JString ''pending'']"

definition snapshot :: jtask where
  "snapshot = [''id'' \<mapsto> JString ''t10'', ''title'' \<mapsto> JString ''Draft report'',
     ''status'' \<mapsto> JString ''completed'']"

section \<open>Facts about the SQL operators\<close>

lemma left_join_if:
  "left_join on xs ys =
     concat (map (\<lambda>x. if filter (on x) ys = [] then [(x, None)]
                        else map (\<lambda>y. (x, Some y)) (filter (on x) ys)) xs)"
proof -
  have "(case zs of [] \<Rightarrow> [(x, None)] | ms \<Rightarrow> map (\<lambda>y. (x, Some y)) ms) =
        (if zs = [] then [(x, None)] else map (\<lambda>y. (x, Some y)) zs)" for zs :: "'b list" and x :: 'a
    by (cases zs) simp_all
  then show ?thesis by (simp add: left_join_def)
qed

lemma left_join_Some:
  "(x, Some y) \<in> set (left_join on xs ys) \<longleftrightarrow> x \<in> set xs \<and> y \<in> set ys \<and> on x y"
  by (auto simp: left_join_if filter_empty_conv)

lemma left_join_None:
  "(x, None) \<in> set (left_join on xs ys) \<longleftrightarrow> x \<in> set xs \<and> (\<forall>y \<in> set ys. \<not> on x y)"
  by (auto simp: left_join_if filter_empty_conv)

lemma left_join_total:
  assumes "x \<in> set xs"
  shows "\<exists>m. (x, m) \<in> set (left_join on xs ys)"
proof (cases "\<exists>y \<in> set ys. on x y")
  case True
  then obtain y where "y \<in> set ys" "on x y" by blast
  with assms have "(x, Some y) \<in> set (left_join on xs ys)" by (simp add: left_join_Some)
  then show ?thesis ..
next
  case False
  with assms have "(x, None) \<in> set (left_join on xs ys)" by (simp add: left_join_None)
  then show ?thesis ..
qed

lemma left_join_left:
  assumes "(x, m) \<in> set (left_join on xs ys)"
  shows "x \<in> set xs"
  using assms by (cases m) (simp_all add: left_join_Some left_join_None)

lemma left_join_unique:
  assumes "(x, m) \<in> set (left_join on xs ys)" and "(x, m') \<in> set (left_join on xs ys)"
    and "\<And>y y'. y \<in> set ys \<Longrightarrow> y' \<in> set ys \<Longrightarrow> on x y \<Longrightarrow> on x y' \<Longrightarrow> y = y'"
  shows "m = m'"
proof (cases m)
  case None
  with assms(1) have no: "\<forall>y \<in> set ys. \<not> on x y" by (simp add: left_join_None)
  show ?thesis
  proof (cases m')
    case None
    with \<open>m = None\<close> show ?thesis by simp
  next
    case (Some y')
    with assms(2) have "y' \<in> set ys \<and> on x y'" by (simp add: left_join_Some)
    with no show ?thesis by blast
  qed
next
  case (Some y)
  with assms(1) have y: "y \<in> set ys" "on x y" by (simp_all add: left_join_Some)
  show ?thesis
  proof (cases m')
    case None
    with assms(2) y show ?thesis by (simp add: left_join_None)
  next
    case (Some y')
    with assms(2) have "y' \<in> set ys" "on x y'" by (simp_all add: left_join_Some)
    with y assms(3) Some \<open>m = Some y\<close> show ?thesis by blast
  qed
qed

lemma group_by_sound:
  assumes "g \<in> set (group_by key rows)"
  shows "g \<noteq> []" and "set g \<subseteq> set rows" and "\<And>r. r \<in> set g \<Longrightarrow> key r = key (hd g)"
proof -
  from assms obtain k where k: "k \<in> set (map key rows)" and g: "g = filter (\<lambda>r. key r = k) rows"
    by (auto simp: group_by_def)
  from k obtain r where "r \<in> set rows" "key r = k" by auto
  then have "r \<in> set g" using g by simp
  then show ne: "g \<noteq> []" by auto
  show "set g \<subseteq> set rows" using g by auto
  have all: "\<And>r. r \<in> set g \<Longrightarrow> key r = k" using g by simp
  from ne have "hd g \<in> set g" by simp
  then have "key (hd g) = k" by (rule all)
  then show "\<And>r. r \<in> set g \<Longrightarrow> key r = key (hd g)" using all by simp
qed

lemma group_by_complete:
  assumes "r \<in> set rows"
  shows "\<exists>g \<in> set (group_by key rows). r \<in> set g"
proof -
  let ?g = "filter (\<lambda>r'. key r' = key r) rows"
  from assms have "?g \<in> set (group_by key rows)" by (auto simp: group_by_def)
  moreover from assms have "r \<in> set ?g" by simp
  ultimately show ?thesis by blast
qed

lemma group_by_hd_key:
  "map (\<lambda>g. key (hd g)) (group_by key rows) = remdups (map key rows)"
proof -
  have "key (hd (filter (\<lambda>r. key r = k) rows)) = k" if "k \<in> set (remdups (map key rows))" for k
  proof -
    from that obtain r where "r \<in> set rows" "key r = k" by auto
    then have "filter (\<lambda>r. key r = k) rows \<noteq> []" by (auto simp: filter_empty_conv)
    then have "hd (filter (\<lambda>r. key r = k) rows) \<in> set (filter (\<lambda>r. key r = k) rows)" by (rule hd_in_set)
    then show ?thesis by simp
  qed
  then have "map (\<lambda>k. key (hd (filter (\<lambda>r. key r = k) rows))) (remdups (map key rows)) =
      remdups (map key rows)" by (intro map_idI)
  then show ?thesis unfolding group_by_def map_map comp_def .
qed

lemma coalesce_not_None: "coalesce v d \<noteq> None"
  by (simp add: coalesce_def split: option.splits)

text \<open>
  Under a primary key, the rows with the key of a given row are that row alone.
\<close>

lemma filter_key_distinct:
  assumes "distinct (map k xs)" and "x \<in> set xs"
  shows "filter (\<lambda>u. k u = k x) xs = [x]"
  using assms
proof (induction xs)
  case Nil
  then show ?case by simp
next
  case (Cons a xs)
  show ?case
  proof (cases "a = x")
    case True
    from Cons.prems(1) have "k x \<notin> k ` set xs" using True by simp
    then have "\<forall>u \<in> set xs. k u \<noteq> k x" by (metis imageI)
    then have "filter (\<lambda>u. k u = k x) xs = []" by (simp add: filter_empty_conv)
    with True show ?thesis by simp
  next
    case False
    with Cons.prems have mem: "x \<in> set xs" and d: "distinct (map k xs)" and "k a \<notin> k ` set xs"
      by simp_all
    then have "k a \<noteq> k x" by (metis imageI)
    with Cons.IH [OF d mem] show ?thesis by simp
  qed
qed

lemma key_distinct_eq:
  assumes "distinct (map k xs)" and "x \<in> set xs" and "y \<in> set xs" and "k y = k x"
  shows "y = x"
proof -
  from assms(3,4) have "y \<in> set (filter (\<lambda>u. k u = k x) xs)" by simp
  with filter_key_distinct [OF assms(1,2)] show ?thesis by simp
qed

subsection \<open>Patterns without wildcards\<close>

text \<open>
  A pattern \<^verbatim>\<open>%q%\<close> in which \<open>q\<close> has no \<^verbatim>\<open>%\<close>, no \<^verbatim>\<open>_\<close> and no backslash matches the strings
  that contain \<open>q\<close>.
\<close>

lemma like_match_percent: "like_match ''%'' s"
  by (induction s) simp_all

lemma like_match_literal:
  assumes "\<forall>c \<in> set ps. \<not> wildcard c"
  shows "like_match (ps @ ''%'') s \<longleftrightarrow> take (length ps) s = ps"
  using assms
proof (induction ps arbitrary: s)
  case Nil
  then show ?case by (simp add: like_match_percent del: like_match.simps)
next
  case (Cons p ps)
  then have p: "p \<noteq> CHR ''%''" "p \<noteq> CHR ''_''" "p \<noteq> CHR 0x5C" and ps: "\<forall>c \<in> set ps. \<not> wildcard c"
    by (simp_all add: wildcard_def)
  show ?case
  proof (cases s)
    case Nil
    with p show ?thesis by simp
  next
    case (Cons c t)
    with p Cons.IH [OF ps, of t] show ?thesis by auto
  qed
qed

lemma like_match_any:
  "like_match (CHR ''%'' # ps) s \<longleftrightarrow> (\<exists>k \<le> length s. like_match ps (drop k s))"
proof (induction s)
  case Nil
  then show ?case by simp
next
  case (Cons c t)
  have "like_match (CHR ''%'' # ps) (c # t) \<longleftrightarrow>
        like_match ps (c # t) \<or> like_match (CHR ''%'' # ps) t" by simp
  also have "\<dots> \<longleftrightarrow> like_match ps (drop 0 (c # t)) \<or> (\<exists>k \<le> length t. like_match ps (drop (Suc k) (c # t)))"
    using Cons.IH by simp
  also have "\<dots> \<longleftrightarrow> (\<exists>k \<le> length (c # t). like_match ps (drop k (c # t)))"
  proof
    assume "like_match ps (drop 0 (c # t)) \<or> (\<exists>k \<le> length t. like_match ps (drop (Suc k) (c # t)))"
    then show "\<exists>k \<le> length (c # t). like_match ps (drop k (c # t))"
    proof
      assume "like_match ps (drop 0 (c # t))"
      then show ?thesis by blast
    next
      assume "\<exists>k \<le> length t. like_match ps (drop (Suc k) (c # t))"
      then obtain k where "k \<le> length t" "like_match ps (drop (Suc k) (c # t))" by blast
      then have "Suc k \<le> length (c # t) \<and> like_match ps (drop (Suc k) (c # t))" by simp
      then show ?thesis by blast
    qed
  next
    assume "\<exists>k \<le> length (c # t). like_match ps (drop k (c # t))"
    then obtain k where k: "k \<le> length (c # t)" "like_match ps (drop k (c # t))" by blast
    show "like_match ps (drop 0 (c # t)) \<or> (\<exists>k \<le> length t. like_match ps (drop (Suc k) (c # t)))"
    proof (cases k)
      case 0
      with k show ?thesis by simp
    next
      case (Suc j)
      with k have "j \<le> length t \<and> like_match ps (drop (Suc j) (c # t))" by simp
      then show ?thesis by blast
    qed
  qed
  finally show ?case .
qed

lemma like_match_contains:
  assumes "\<forall>c \<in> set q. \<not> wildcard c"
  shows "like_match (''%'' @ q @ ''%'') s \<longleftrightarrow> (\<exists>pre post. s = pre @ q @ post)"
proof -
  have "like_match (''%'' @ q @ ''%'') s \<longleftrightarrow>
        (\<exists>k \<le> length s. take (length q) (drop k s) = q)"
    using like_match_any [of "q @ ''%''" s] like_match_literal [OF assms] by simp
  also have "\<dots> \<longleftrightarrow> (\<exists>pre post. s = pre @ q @ post)"
  proof
    assume "\<exists>k \<le> length s. take (length q) (drop k s) = q"
    then obtain k where "take (length q) (drop k s) = q" by blast
    then have "s = take k s @ q @ drop (length q) (drop k s)"
      by (metis append_take_drop_id)
    then show "\<exists>pre post. s = pre @ q @ post" by blast
  next
    assume "\<exists>pre post. s = pre @ q @ post"
    then obtain pre post where "s = pre @ q @ post" by blast
    then have "length pre \<le> length s \<and> take (length q) (drop (length pre) s) = q" by simp
    then show "\<exists>k \<le> length s. take (length q) (drop k s) = q" by blast
  qed
  finally show ?thesis .
qed

lemma wildcard_code: "wildcard c \<Longrightarrow> (of_char c :: nat) \<in> {37, 95, 92}"
  by (auto simp: wildcard_def)

lemma lower_char_wildcard: "wildcard (lower_char c) \<longleftrightarrow> wildcard c"
proof (cases "(65::nat) \<le> of_char c \<and> of_char c \<le> (90::nat)")
  case False
  then show ?thesis by (simp only: lower_char_def if_False)
next
  case True
  let ?n = "of_char c + (32::nat)"
  from True have n: "97 \<le> ?n" "?n \<le> 122" by simp_all
  have "of_char (char_of ?n) = ?n mod 256" by simp
  with n have v: "(of_char (char_of ?n) :: nat) = ?n" by simp
  have a: "\<not> wildcard (char_of ?n)"
  proof
    assume "wildcard (char_of ?n)"
    then have "(of_char (char_of ?n) :: nat) \<in> {37, 95, 92}" by (rule wildcard_code)
    then have "?n \<in> {37, 95, 92}" unfolding v .
    with n show False by auto
  qed
  have b: "\<not> wildcard c"
  proof
    assume "wildcard c"
    then have "(of_char c :: nat) \<in> {37, 95, 92}" by (rule wildcard_code)
    with True show False by auto
  qed
  from True a b show ?thesis by (simp add: lower_char_def)
qed

lemma ilike_contains:
  assumes "\<forall>c \<in> set q. \<not> wildcard c"
  shows "ilike s (''%'' @ q @ ''%'') \<longleftrightarrow> (\<exists>pre post. lower s = pre @ lower q @ post)"
proof -
  have "\<forall>c \<in> set (lower q). \<not> wildcard c"
    using assms by (simp add: lower_def lower_char_wildcard)
  from like_match_contains [OF this, of "lower s"]
  have "like_match (''%'' @ lower q @ ''%'') (lower s) \<longleftrightarrow> (\<exists>pre post. lower s = pre @ lower q @ post)" .
  moreover have "lower (''%'' @ q @ ''%'') = ''%'' @ lower q @ ''%''"
    by (simp add: lower_def lower_char_def)
  ultimately show ?thesis by (simp add: ilike_def)
qed

lemma like_match_skip: "like_match ps s \<Longrightarrow> like_match (CHR ''%'' # ps) s"
  by simp

lemma like_match_percents: "like_match ''%%%%'' s"
  by (intro like_match_skip like_match_percent)

section \<open>Facts about the queries and the validation chains\<close>

lemmas ex_defs = ex_ext_def alice_def bob_def carol_def draft_report_def bob_writes_def
  ex_server_def no_fields_def

lemmas chain_defs = optional_chain_def required_chain_def isLength_def isIn_def








lemma permission_query_empty_iff:
  "permission_query srv taskId uid = [] \<longleftrightarrow>
     \<not> (\<exists>t \<in> set (tasks srv). t_id t = taskId \<and>
           (created_by t = uid \<or>
            (\<exists>c \<in> set (task_collaborators srv).
               task_id c = taskId \<and> user_id c = uid \<and> permission c = ''write'')))"
proof -
  have "permission_query srv taskId uid = [] \<longleftrightarrow>
      (\<forall>t tc. (t, tc) \<in> set (left_join (\<lambda>t tc. t_id t = task_id tc \<and> user_id tc = uid)
                               (tasks srv) (task_collaborators srv)) \<longrightarrow>
          \<not> (t_id t = taskId \<and>
            (created_by t = uid \<or> (case tc of None \<Rightarrow> False | Some c \<Rightarrow> permission c = ''write''))))"
    by (auto simp: permission_query_def filter_empty_conv)
  also have "\<dots> \<longleftrightarrow> \<not> (\<exists>t \<in> set (tasks srv). t_id t = taskId \<and>
           (created_by t = uid \<or>
            (\<exists>c \<in> set (task_collaborators srv).
               task_id c = taskId \<and> user_id c = uid \<and> permission c = ''write'')))"
    (is "?L \<longleftrightarrow> ?R")
  proof
    assume L: ?L
    show ?R
    proof
      assume "\<exists>t \<in> set (tasks srv). t_id t = taskId \<and>
           (created_by t = uid \<or>
            (\<exists>c \<in> set (task_collaborators srv).
               task_id c = taskId \<and> user_id c = uid \<and> permission c = ''write''))"
      then obtain t where t: "t \<in> set (tasks srv)" "t_id t = taskId"
        and d: "created_by t = uid \<or>
            (\<exists>c \<in> set (task_collaborators srv).
               task_id c = taskId \<and> user_id c = uid \<and> permission c = ''write'')" by blast
      from d show False
      proof
        assume own: "created_by t = uid"
        from left_join_total [OF t(1)]
        obtain tc where "(t, tc) \<in> set (left_join (\<lambda>t tc. t_id t = task_id tc \<and> user_id tc = uid)
                               (tasks srv) (task_collaborators srv))"
          by blast
        with L t own show False by blast
      next
        assume "\<exists>c \<in> set (task_collaborators srv).
               task_id c = taskId \<and> user_id c = uid \<and> permission c = ''write''"
        then obtain c where c: "c \<in> set (task_collaborators srv)" "task_id c = taskId"
          "user_id c = uid" "permission c = ''write''" by blast
        with t have "(t, Some c) \<in> set (left_join (\<lambda>t tc. t_id t = task_id tc \<and> user_id tc = uid)
                               (tasks srv) (task_collaborators srv))"
          by (simp add: left_join_Some)
        with L t c show False by fastforce
      qed
    qed
  next
    assume R: ?R
    show ?L
    proof (intro allI impI)
      fix t tc
      assume m: "(t, tc) \<in> set (left_join (\<lambda>t tc. t_id t = task_id tc \<and> user_id tc = uid)
                               (tasks srv) (task_collaborators srv))"
      show "\<not> (t_id t = taskId \<and>
            (created_by t = uid \<or> (case tc of None \<Rightarrow> False | Some c \<Rightarrow> permission c = ''write'')))"
      proof (cases tc)
        case None
        with m have "t \<in> set (tasks srv)" by (simp add: left_join_None)
        with R None show ?thesis by auto
      next
        case (Some c)
        with m have "t \<in> set (tasks srv)" "c \<in> set (task_collaborators srv)"
          "t_id t = task_id c" "user_id c = uid" by (simp_all add: left_join_Some)
        with R Some show ?thesis by auto
      qed
    qed
  qed
  finally show ?thesis .
qed

lemma owner_query_nonempty:
  assumes "t \<in> set (tasks srv)" and "created_by t = p_id user"
  shows "owner_query srv (t_id t) (p_id user) \<noteq> []"
  using assms by (auto simp: owner_query_def filter_empty_conv)

lemma owner_query_deleted: "owner_query (delete_query taskId srv\<lparr>emitted := es\<rparr>) taskId uid = []"
  by (simp add: owner_query_def delete_query_def filter_empty_conv)

lemma t_id_set_columns: "t_id (set_columns x now b t) = t_id t"
  by (simp add: set_columns_def)



subsection \<open>The list query\<close>

lemma list_from_sound:
  assumes "(((t, p), tc), cp) \<in> set (list_from srv)"
  shows "t \<in> set (tasks srv)"
    and "tc = Some c \<Longrightarrow> c \<in> set (task_collaborators srv) \<and> task_id c = t_id t"
proof -
  from assms have 2: "((t, p), tc) \<in> set (left_join (\<lambda>r tc. t_id (fst r) = task_id tc)
          (left_join (\<lambda>t p. created_by t = p_id p) (tasks srv) (profiles srv))
          (task_collaborators srv))"
    unfolding list_from_def by (rule left_join_left)
  then have "(t, p) \<in> set (left_join (\<lambda>t p. created_by t = p_id p) (tasks srv) (profiles srv))"
    by (rule left_join_left)
  then show "t \<in> set (tasks srv)" by (rule left_join_left)
  show "c \<in> set (task_collaborators srv) \<and> task_id c = t_id t" if "tc = Some c"
    using 2 that by (simp add: left_join_Some)
qed

lemma list_from_complete:
  assumes "t \<in> set (tasks srv)"
  shows "\<exists>p tc cp. (((t, p), tc), cp) \<in> set (list_from srv)"
proof -
  from left_join_total [OF assms] obtain p where
    "(t, p) \<in> set (left_join (\<lambda>t p. created_by t = p_id p) (tasks srv) (profiles srv))" by blast
  from left_join_total [OF this] obtain tc where
    "((t, p), tc) \<in> set (left_join (\<lambda>r tc. t_id (fst r) = task_id tc)
          (left_join (\<lambda>t p. created_by t = p_id p) (tasks srv) (profiles srv))
          (task_collaborators srv))" by blast
  from left_join_total [OF this] obtain cp where "(((t, p), tc), cp) \<in> set (list_from srv)"
    unfolding list_from_def by blast
  then show ?thesis by blast
qed

lemma select_row_nonempty:
  assumes "g \<noteq> []"
  shows "\<exists>row. select_row g = [row] \<and> row_task row = fst (fst (fst (hd g))) \<and>
           collaborators row = coalesce (agg_collaborators g) []"
  using assms by (cases g) (auto simp: select_row_def split: prod.splits)

lemma t_id_list_key: "fst (list_key r) = t_id (fst (fst (fst r)))"
  by (simp add: list_key_def split: prod.splits)

lemma list_where_iff:
  "list_where srv uid t \<longleftrightarrow>
     created_by t = uid \<or> (\<exists>c \<in> set (task_collaborators srv). task_id c = t_id t \<and> user_id c = uid)"
proof -
  have "t_id t \<in> set (map task_id (filter (\<lambda>c. user_id c = uid) (task_collaborators srv))) \<longleftrightarrow>
        (\<exists>c \<in> set (task_collaborators srv). task_id c = t_id t \<and> user_id c = uid)"
    unfolding set_map set_filter image_iff Bex_def mem_Collect_eq by metis
  then show ?thesis by (simp add: list_where_def)
qed

lemma set_list_query:
  "set (list_query srv uid) =
     (\<Union>g \<in> set (group_by list_key (filter (\<lambda>r. list_where srv uid (fst (fst (fst r)))) (list_from srv))).
        set (select_row g))"
  by (simp add: list_query_def)

lemma list_query_row:
  assumes "row \<in> set (list_query srv uid)"
  obtains g where "g \<in> set (group_by list_key (filter (\<lambda>r. list_where srv uid (fst (fst (fst r)))) (list_from srv)))"
    and "row_task row = fst (fst (fst (hd g)))"
    and "collaborators row = coalesce (agg_collaborators g) []"
proof -
  from assms obtain g where g: "g \<in> set (group_by list_key (filter (\<lambda>r. list_where srv uid (fst (fst (fst r)))) (list_from srv)))"
    and r: "row \<in> set (select_row g)" unfolding set_list_query by blast
  from select_row_nonempty [OF group_by_sound(1) [OF g]] r
  have "row_task row = fst (fst (fst (hd g)))" "collaborators row = coalesce (agg_collaborators g) []"
    by auto
  with g that show thesis by blast
qed

lemma list_query_tasks:
  assumes "distinct (map t_id (tasks srv))"
  shows "row_task ` set (list_query srv uid) = {t \<in> set (tasks srv). list_where srv uid t}"
proof (intro set_eqI iffI)
  fix t assume "t \<in> row_task ` set (list_query srv uid)"
  then obtain row where row: "row \<in> set (list_query srv uid)" and t: "t = row_task row" by blast
  from row obtain g where g: "g \<in> set (group_by list_key (filter (\<lambda>r. list_where srv uid (fst (fst (fst r)))) (list_from srv)))"
    and rt: "row_task row = fst (fst (fst (hd g)))" by (rule list_query_row)
  from group_by_sound(1,2) [OF g] have "hd g \<in> set (filter (\<lambda>r. list_where srv uid (fst (fst (fst r)))) (list_from srv))"
    by (meson hd_in_set subsetD)
  then have w: "list_where srv uid (fst (fst (fst (hd g))))" and j: "hd g \<in> set (list_from srv)" by simp_all
  obtain t' p tc cp where h: "hd g = (((t', p), tc), cp)" by (metis prod.exhaust)
  with j have "t' \<in> set (tasks srv)" by (auto dest: list_from_sound(1))
  with w h rt t show "t \<in> {t \<in> set (tasks srv). list_where srv uid t}" by simp
next
  fix t assume "t \<in> {t \<in> set (tasks srv). list_where srv uid t}"
  then have t: "t \<in> set (tasks srv)" and w: "list_where srv uid t" by simp_all
  from list_from_complete [OF t] obtain p tc cp where j: "(((t, p), tc), cp) \<in> set (list_from srv)"
    by blast
  let ?rows = "filter (\<lambda>r. list_where srv uid (fst (fst (fst r)))) (list_from srv)"
  from j w have "(((t, p), tc), cp) \<in> set ?rows" by simp
  from group_by_complete [OF this] obtain g where g: "g \<in> set (group_by list_key ?rows)"
    and m: "(((t, p), tc), cp) \<in> set g" by blast
  from group_by_sound(3) [OF g m] have "fst (list_key (hd g)) = fst (list_key (((t, p), tc), cp))" by simp
  then have id: "t_id (fst (fst (fst (hd g)))) = t_id t" by (simp add: t_id_list_key)
  from group_by_sound(1,2) [OF g] have "hd g \<in> set ?rows" by (meson hd_in_set subsetD)
  then have "hd g \<in> set (list_from srv)" by simp
  moreover obtain t' p' tc' cp' where h: "hd g = (((t', p'), tc'), cp')" by (metis prod.exhaust)
  ultimately have "t' \<in> set (tasks srv)" by (auto dest: list_from_sound(1))
  with key_distinct_eq [OF assms t] id h have eq: "fst (fst (fst (hd g))) = t" by simp
  from select_row_nonempty [OF group_by_sound(1) [OF g]] obtain row where
    "select_row g = [row] \<and> row_task row = fst (fst (fst (hd g)))" by blast
  then have sel: "row \<in> set (select_row g)" and rt: "row_task row = fst (fst (fst (hd g)))"
    by simp_all
  from g sel have "row \<in> set (list_query srv uid)" unfolding set_list_query by (rule UN_I)
  moreover from rt eq have "row_task row = t" by simp
  ultimately show "t \<in> row_task ` set (list_query srv uid)" by blast
qed

lemma list_query_sorted:
  "sorted_wrt (\<lambda>a b. created_at (row_task b) \<le> created_at (row_task a)) (list_query srv uid)"
proof -
  have "sorted (map (\<lambda>r. - created_at (row_task r)) (list_query srv uid))"
    unfolding list_query_def by (rule sorted_sort_key)
  then show ?thesis by (simp add: sorted_map)
qed

lemma list_query_collaborators:
  assumes "row \<in> set (list_query srv uid)"
  shows "collaborators row \<noteq> None"
    and "\<forall>c \<in> set (task_collaborators srv). task_id c \<noteq> t_id (row_task row) \<Longrightarrow>
         collaborators row = Some []"
proof -
  from assms obtain g where g: "g \<in> set (group_by list_key (filter (\<lambda>r. list_where srv uid (fst (fst (fst r)))) (list_from srv)))"
    and rt: "row_task row = fst (fst (fst (hd g)))"
    and co: "collaborators row = coalesce (agg_collaborators g) []" by (rule list_query_row)
  from co show "collaborators row \<noteq> None" by (simp add: coalesce_not_None)
  assume none: "\<forall>c \<in> set (task_collaborators srv). task_id c \<noteq> t_id (row_task row)"
  have "snd (fst r) = None" if r: "r \<in> set g" for r
  proof (cases "snd (fst r)")
    case None
    then show ?thesis .
  next
    case (Some c)
    obtain t p tc cp where h: "r = (((t, p), tc), cp)" by (metis prod.exhaust)
    from group_by_sound(2) [OF g] r have "r \<in> set (list_from srv)" by auto
    with h Some have "c \<in> set (task_collaborators srv)" "task_id c = t_id t"
      by (auto dest: list_from_sound(2))
    moreover from group_by_sound(3) [OF g r] have "fst (list_key r) = fst (list_key (hd g))" by simp
    then have "t_id t = t_id (row_task row)" using h rt by (simp add: t_id_list_key)
    ultimately show ?thesis using none by auto
  qed
  then have "(case r of (((t, p), tc), cp) \<Rightarrow>
                 (case tc of None \<Rightarrow> [] | Some c \<Rightarrow> [build_collaborator c cp])) = []"
    if "r \<in> set g" for r
    using that by (cases r rule: prod.exhaust) (force split: prod.splits)
  then have "concat (map (\<lambda>r. case r of (((t, p), tc), cp) \<Rightarrow>
                 (case tc of None \<Rightarrow> [] | Some c \<Rightarrow> [build_collaborator c cp])) g) = []"
    by simp
  then have "agg_collaborators g = None" by (simp add: agg_collaborators_def json_agg_def)
  with co show "collaborators row = Some []" by (simp add: coalesce_def)
qed

text \<open>Under the primary keys of \<^verbatim>\<open>tasks\<close> and \<^verbatim>\<open>profiles\<close> a task joins one creator at most, so
  the groups of the query are one for each task.\<close>

lemma list_from_creator:
  assumes "(((t, p), tc), cp) \<in> set (list_from srv)"
  shows "(t, p) \<in> set (left_join (\<lambda>t p. created_by t = p_id p) (tasks srv) (profiles srv))"
proof -
  from assms have "((t, p), tc) \<in> set (left_join (\<lambda>r tc. t_id (fst r) = task_id tc)
          (left_join (\<lambda>t p. created_by t = p_id p) (tasks srv) (profiles srv))
          (task_collaborators srv))"
    unfolding list_from_def by (rule left_join_left)
  then show ?thesis by (rule left_join_left)
qed

lemma list_key_unique:
  assumes dt: "distinct (map t_id (tasks srv))" and dp: "distinct (map p_id (profiles srv))"
    and r: "r \<in> set (list_from srv)" and r': "r' \<in> set (list_from srv)"
    and id: "fst (list_key r) = fst (list_key r')"
  shows "list_key r = list_key r'"
proof -
  obtain t p tc cp where h: "r = (((t, p), tc), cp)" by (metis prod.exhaust)
  obtain t' p' tc' cp' where h': "r' = (((t', p'), tc'), cp')" by (metis prod.exhaust)
  from r h have t: "t \<in> set (tasks srv)" by (auto dest: list_from_sound(1))
  from r' h' have t': "t' \<in> set (tasks srv)" by (auto dest: list_from_sound(1))
  from id h h' have "t_id t' = t_id t" by (simp add: t_id_list_key)
  with key_distinct_eq [OF dt t t'] have tt: "t' = t" by simp
  from r h have c: "(t, p) \<in> set (left_join (\<lambda>t p. created_by t = p_id p) (tasks srv) (profiles srv))"
    by (auto dest: list_from_creator)
  from r' h' tt have c': "(t, p') \<in> set (left_join (\<lambda>t p. created_by t = p_id p) (tasks srv) (profiles srv))"
    by (auto dest: list_from_creator)
  have "p = p'"
  proof (rule left_join_unique [OF c c'])
    fix y y' assume "y \<in> set (profiles srv)" "y' \<in> set (profiles srv)"
      "created_by t = p_id y" "created_by t = p_id y'"
    then show "y = y'" using key_distinct_eq [OF dp, of y y'] by simp
  qed
  with tt h h' show ?thesis by (simp add: list_key_def)
qed

lemma select_row_group:
  assumes "g \<in> set (group_by key rows)"
  shows "\<exists>row. select_row g = [row] \<and> row_task row = fst (fst (fst (hd g)))"
  using select_row_nonempty [OF group_by_sound(1) [OF assms]] by blast

lemma list_query_distinct:
  assumes dt: "distinct (map t_id (tasks srv))" and dp: "distinct (map p_id (profiles srv))"
  shows "distinct (map (\<lambda>row. t_id (row_task row)) (list_query srv uid))"
proof -
  let ?rows = "filter (\<lambda>r. list_where srv uid (fst (fst (fst r)))) (list_from srv)"
  let ?groups = "group_by list_key ?rows"
  let ?sel = "concat (map select_row ?groups)"
  have ids: "map (\<lambda>row. t_id (row_task row)) ?sel = map (\<lambda>g. fst (list_key (hd g))) ?groups"
  proof -
    have "map (\<lambda>row. t_id (row_task row)) (select_row g) = [fst (list_key (hd g))]"
      if "g \<in> set ?groups" for g
      using select_row_group [OF that] by (auto simp: t_id_list_key)
    then have "map (map (\<lambda>row. t_id (row_task row)) \<circ> select_row) ?groups =
        map (\<lambda>g. [fst (list_key (hd g))]) ?groups" by simp
    then have "concat (map (map (\<lambda>row. t_id (row_task row)) \<circ> select_row) ?groups) =
        concat (map (\<lambda>g. [fst (list_key (hd g))]) ?groups)" by (rule arg_cong)
    then show ?thesis by (simp add: map_concat comp_def)
  qed
  have "map (\<lambda>g. fst (list_key (hd g))) ?groups = map fst (map (\<lambda>g. list_key (hd g)) ?groups)"
    by simp
  also have "\<dots> = map fst (remdups (map list_key ?rows))" by (simp only: group_by_hd_key)
  finally have keys: "map (\<lambda>g. fst (list_key (hd g))) ?groups = map fst (remdups (map list_key ?rows))" .
  have "inj_on fst (set (remdups (map list_key ?rows)))"
  proof (rule inj_onI)
    fix k k' assume "k \<in> set (remdups (map list_key ?rows))" "k' \<in> set (remdups (map list_key ?rows))"
      and eq: "fst k = fst k'"
    then obtain r r' where "r \<in> set (list_from srv)" "k = list_key r"
      "r' \<in> set (list_from srv)" "k' = list_key r'" by auto
    with eq list_key_unique [OF dt dp] show "k = k'" by blast
  qed
  then have "distinct (map fst (remdups (map list_key ?rows)))" by (simp add: distinct_map)
  with ids keys have d: "distinct (map (\<lambda>row. t_id (row_task row)) ?sel)" by simp
  then have "distinct ?sel \<and> inj_on (\<lambda>row. t_id (row_task row)) (set ?sel)" by (simp add: distinct_map)
  then have "distinct (sort_key (\<lambda>r. - created_at (row_task r)) ?sel) \<and>
      inj_on (\<lambda>row. t_id (row_task row)) (set (sort_key (\<lambda>r. - created_at (row_task r)) ?sel))"
    by simp
  then show ?thesis unfolding list_query_def by (simp add: distinct_map)
qed

subsection \<open>The primary key of tasks\<close>

text \<open>No route breaks the primary key of \<^verbatim>\<open>tasks\<close>.\<close>

lemma t_id_update_query: "map t_id (update_query x now b taskId ts) = map t_id ts"
  by (simp add: update_query_def t_id_set_columns)

lemma routes_keep_task_key:
  assumes "distinct (map t_id (tasks srv))"
  shows "distinct (map t_id (tasks (snd (get_tasks user srv))))"
    and "distinct (map t_id (tasks (snd (post_tasks x now new_id user tbody srv))))"
    and "distinct (map t_id (tasks (snd (put_task x now user taskId tbody srv))))"
    and "distinct (map t_id (tasks (snd (delete_task user taskId srv))))"
    and "distinct (map t_id (tasks (snd (post_collaborators x now new_id user taskId cbody srv))))"
    and "distinct (map t_id (tasks (snd (delete_collaborator user taskId userId srv))))"
    and "distinct (map t_id (tasks (snd (get_search_users user q srv))))"
proof -
  show "distinct (map t_id (tasks (snd (get_tasks user srv))))"
    using assms by (simp add: get_tasks_def)
  show "distinct (map t_id (tasks (snd (post_tasks x now new_id user tbody srv))))"
    using assms
    by (auto simp: post_tasks_def insert_task_def Let_def split: option.splits if_splits)
  show "distinct (map t_id (tasks (snd (put_task x now user taskId tbody srv))))"
    using assms by (simp add: put_task_def Let_def t_id_update_query)
  show "distinct (map t_id (tasks (snd (delete_task user taskId srv))))"
    using assms by (simp add: delete_task_def delete_query_def Let_def distinct_map_filter)
  show "distinct (map t_id (tasks (snd (post_collaborators x now new_id user taskId cbody srv))))"
    using assms
    by (auto simp: post_collaborators_def insert_collaborator_def Let_def
        split: option.splits list.splits if_splits)
  show "distinct (map t_id (tasks (snd (delete_collaborator user taskId userId srv))))"
    using assms by (simp add: delete_collaborator_def)
  show "distinct (map t_id (tasks (snd (get_search_users user q srv))))"
    using assms by (simp add: get_search_users_def split: option.splits)
qed

subsection \<open>The user search on a query without wildcards\<close>

text \<open>
  When the query is storable text with no \<^verbatim>\<open>%\<close>, \<^verbatim>\<open>_\<close> or backslash, the search returns at most ten users, none for
  a query shorter than two characters, never the requester, and each with the query in
  the email or the name, without regard to case.
\<close>

lemma get_search_users_plain:
  assumes "\<forall>c \<in> set q. \<not> wildcard c" and "storable q"
  shows "\<exists>found. get_search_users user (Some q) srv = (Response 200 (Users_json found), srv) \<and>
           length found \<le> 10 \<and>
           (length q < 2 \<longrightarrow> found = []) \<and>
           (\<forall>p \<in> set found. p_id p \<noteq> p_id user \<and>
              ((\<exists>pre post. lower (email p) = pre @ lower q @ post) \<or>
               (\<exists>pre post. lower (name p) = pre @ lower q @ post)))"
proof (cases "length q < 2")
  case True
  then have "get_search_users user (Some q) srv = (Response 200 (Users_json []), srv)"
    by (simp add: get_search_users_def)
  then show ?thesis by simp
next
  case False
  then have q: "q \<noteq> []" by auto
  let ?found = "search_query srv (''%'' @ q @ ''%'') (p_id user)"
  from assms(2) have "storable (''%'' @ q @ ''%'')" by (simp add: storable_def)
  with False q have r: "get_search_users user (Some q) srv = (Response 200 (Users_json ?found), srv)"
    by (simp add: get_search_users_def del: append.simps)
  have l: "length ?found \<le> 10" by (simp add: search_query_def)
  have m: "p_id p \<noteq> p_id user \<and>
              ((\<exists>pre post. lower (email p) = pre @ lower q @ post) \<or>
               (\<exists>pre post. lower (name p) = pre @ lower q @ post))" if "p \<in> set ?found" for p
  proof -
    from that have "p \<in> set (filter (\<lambda>p. (ilike (email p) (''%'' @ q @ ''%'') \<or>
        ilike (name p) (''%'' @ q @ ''%'')) \<and> p_id p \<noteq> p_id user) (profiles srv))"
      unfolding search_query_def by (rule in_set_takeD)
    then have "(ilike (email p) (''%'' @ q @ ''%'') \<or> ilike (name p) (''%'' @ q @ ''%'')) \<and>
        p_id p \<noteq> p_id user" by simp
    then show ?thesis unfolding ilike_contains [OF assms(1)] by blast
  qed
  from r l m False show ?thesis by blast
qed

section \<open>The claims\<close>

text \<open>
  Status 400 with \<^verbatim>\<open>{errors: [...]}\<close> is a validation error, 403 is a denied permission, 404 is
  not found, 400 with \<^verbatim>\<open>User is already a collaborator\<close> is an existing grant, 500 is a
  statement the database did not run, 200 and 201 are success.
\<close>

subsection \<open>The owner among the collaborators\<close>

text \<open>
  Claim C1: the owner of a task is never in its collaborator set, whatever the sequence of
  operations. The route that adds a collaborator does not compare the user it finds with
  the owner: Alice, owner of task 10, adds her own email and gets status 201, and the
  table has a grant on task 10 whose \<^verbatim>\<open>user_id\<close> is the task's \<^verbatim>\<open>created_by\<close>.
\<close>

theorem post_collaborators_owner_email:
  "owner_query ex_server 10 (p_id alice) = [draft_report] \<and>
   fst (post_collaborators ex_ext 200 21 alice 10
          \<lparr>b_email = Some ''alice@example.com'', b_permission = Some ''read''\<rparr> ex_server) =
     Response 201 (Collaborator_json
       \<lparr>tc_id = 21, task_id = 10, user_id = 1, permission = ''read'', tc_created_at = 200\<rparr> alice) \<and>
   task_collaborators (snd (post_collaborators ex_ext 200 21 alice 10
          \<lparr>b_email = Some ''alice@example.com'', b_permission = Some ''read''\<rparr> ex_server)) =
     [bob_writes,
      \<lparr>tc_id = 21, task_id = 10, user_id = created_by draft_report, permission = ''read'',
        tc_created_at = 200\<rparr>]"
  by (simp add: post_collaborators_def collaborator_errors_def chain_defs owner_query_def
      insert_collaborator_def ex_defs Let_def)

subsection \<open>Updating a task that does not exist\<close>

text \<open>
  Claim C2, as amended: an update of a task id that no task has never answers 404. It
  answers 400 with the validation errors when a present field breaks its constraint, and
  403 \<^verbatim>\<open>Permission denied\<close> otherwise; the state is unchanged and nothing is emitted.
\<close>

theorem put_task_absent:
  assumes "taskId \<notin> set (map t_id (tasks srv))"
  shows "put_task x now user taskId body srv =
     (if update_errors x (update_sanitize body) \<noteq> []
      then (Response 400 (Errors_json (update_errors x (update_sanitize body))), srv)
      else (Response 403 (Error_json ''Permission denied''), srv))"
proof -
  from assms have "permission_query srv taskId (p_id user) = []"
    unfolding permission_query_empty_iff by auto
  then show ?thesis by (simp add: put_task_def Let_def)
qed

text \<open>
  The claim as stated asks for 404: for task id 99, which no task has, Carol's update of the
  status is answered with 403.
\<close>

theorem put_task_absent_counterexample:
  "99 \<notin> set (map t_id (tasks ex_server)) \<and>
   fst (put_task ex_ext 200 carol 99 (no_fields\<lparr>b_status := Some ''completed''\<rparr>) ex_server)
     = Response 403 (Error_json ''Permission denied'') \<and>
   code (fst (put_task ex_ext 200 carol 99 (no_fields\<lparr>b_status := Some ''completed''\<rparr>) ex_server))
     \<noteq> 404"
  by (simp add: put_task_def permission_query_def left_join_def update_errors_def update_sanitize_def
      chain_defs ex_defs Let_def)

theorem put_task_absent_witness:
  "99 \<notin> set (map t_id (tasks ex_server)) \<and>
   put_task ex_ext 200 carol 99 (no_fields\<lparr>b_status := Some ''completed''\<rparr>) ex_server =
     (if update_errors ex_ext (update_sanitize (no_fields\<lparr>b_status := Some ''completed''\<rparr>)) \<noteq> []
      then (Response 400 (Errors_json (update_errors ex_ext (update_sanitize (no_fields\<lparr>b_status := Some ''completed''\<rparr>)))), ex_server)
      else (Response 403 (Error_json ''Permission denied''), ex_server))"
proof -
  have h: "99 \<notin> set (map t_id (tasks ex_server))" by (simp add: ex_defs)
  show ?thesis by (rule conjI [OF h put_task_absent [OF h]])
qed

subsection \<open>Deleting twice, removing a collaborator twice\<close>

text \<open>
  Claim C3, as amended: when the owner deletes a task twice in succession, the first call
  succeeds and the second is answered with 403 \<^verbatim>\<open>Permission denied\<close> and changes nothing;
  when the owner removes a collaborator twice in succession, both calls succeed, and the
  second leaves the profiles, the tasks and the grants as they were.
\<close>

theorem delete_twice_remove_twice:
  assumes "t \<in> set (tasks srv)" and "created_by t = p_id user"
  shows "(let (r1, s1) = delete_task user (t_id t) srv;
              (r2, s2) = delete_task user (t_id t) s1
          in r1 = Response 200 (Message_json ''Task deleted successfully'') \<and>
             r2 = Response 403 (Error_json ''Permission denied'') \<and> s2 = s1) \<and>
         (let (r1, s1) = delete_collaborator user (t_id t) userId srv;
              (r2, s2) = delete_collaborator user (t_id t) userId s1
          in r1 = Response 200 (Message_json ''Collaborator removed successfully'') \<and>
             r2 = Response 200 (Message_json ''Collaborator removed successfully'') \<and>
             profiles s2 = profiles s1 \<and> tasks s2 = tasks s1 \<and>
             task_collaborators s2 = task_collaborators s1)"
proof -
  note own = owner_query_nonempty [OF assms]
  have del: "delete_task user (t_id t) srv =
      (Response 200 (Message_json ''Task deleted successfully''),
       delete_query (t_id t) srv\<lparr>emitted := emitted (delete_query (t_id t) srv) @ [Task_deleted (t_id t) user]\<rparr>)"
    using own by (simp add: delete_task_def Let_def)
  have del2: "delete_task user (t_id t) (delete_query (t_id t) srv\<lparr>emitted := es\<rparr>) =
      (Response 403 (Error_json ''Permission denied''), delete_query (t_id t) srv\<lparr>emitted := es\<rparr>)" for es
    by (simp add: delete_task_def owner_query_deleted)
  have rem: "delete_collaborator user (t_id t) userId s =
      (Response 200 (Message_json ''Collaborator removed successfully''),
         s\<lparr>task_collaborators :=
               filter (\<lambda>c. \<not> (task_id c = t_id t \<and> user_id c = userId)) (task_collaborators s),
             emitted := emitted s @ [Collaborator_removed (t_id t) userId user]\<rparr>)"
    if "tasks s = tasks srv" for s
    using own that by (simp add: delete_collaborator_def owner_query_def)
  have first: "(let (r1, s1) = delete_task user (t_id t) srv;
              (r2, s2) = delete_task user (t_id t) s1
          in r1 = Response 200 (Message_json ''Task deleted successfully'') \<and>
             r2 = Response 403 (Error_json ''Permission denied'') \<and> s2 = s1)"
    by (simp add: del del2)
  have second: "(let (r1, s1) = delete_collaborator user (t_id t) userId srv;
              (r2, s2) = delete_collaborator user (t_id t) userId s1
          in r1 = Response 200 (Message_json ''Collaborator removed successfully'') \<and>
             r2 = Response 200 (Message_json ''Collaborator removed successfully'') \<and>
             profiles s2 = profiles s1 \<and> tasks s2 = tasks s1 \<and>
             task_collaborators s2 = task_collaborators s1)"
    by (simp add: rem)
  show ?thesis
    using first second by (rule conjI)
qed

text \<open>
  The claim as stated asks for 404 on the second delete: Alice deletes her task 10 twice,
  and the second answer is 403.
\<close>

theorem delete_twice_counterexample:
  "draft_report \<in> set (tasks ex_server) \<and> created_by draft_report = p_id alice \<and>
   fst (delete_task alice 10 ex_server) = Response 200 (Message_json ''Task deleted successfully'') \<and>
   fst (delete_task alice 10 (snd (delete_task alice 10 ex_server)))
     = Response 403 (Error_json ''Permission denied'') \<and>
   code (fst (delete_task alice 10 (snd (delete_task alice 10 ex_server)))) \<noteq> 404"
  by (simp add: delete_task_def owner_query_def delete_query_def ex_defs Let_def)

theorem delete_twice_remove_twice_witness:
  "draft_report \<in> set (tasks ex_server) \<and> created_by draft_report = p_id alice \<and>
   (let (r1, s1) = delete_task alice (t_id draft_report) ex_server;
        (r2, s2) = delete_task alice (t_id draft_report) s1
    in r1 = Response 200 (Message_json ''Task deleted successfully'') \<and>
       r2 = Response 403 (Error_json ''Permission denied'') \<and> s2 = s1) \<and>
   (let (r1, s1) = delete_collaborator alice (t_id draft_report) 2 ex_server;
        (r2, s2) = delete_collaborator alice (t_id draft_report) 2 s1
    in r1 = Response 200 (Message_json ''Collaborator removed successfully'') \<and>
       r2 = Response 200 (Message_json ''Collaborator removed successfully'') \<and>
       profiles s2 = profiles s1 \<and> tasks s2 = tasks s1 \<and>
       task_collaborators s2 = task_collaborators s1)"
proof -
  have h1: "draft_report \<in> set (tasks ex_server)" by (simp add: ex_server_def)
  have h2: "created_by draft_report = p_id alice" by (simp add: draft_report_def alice_def)
  from delete_twice_remove_twice [OF h1 h2, of 2] h1 h2 show ?thesis by (intro conjI) simp_all
qed

subsection \<open>Adding a collaborator who has a grant\<close>

text \<open>
  Claim C4: when the owner of a task adds, with permission \<^verbatim>\<open>read\<close> or \<^verbatim>\<open>write\<close>, the email of
  a user who already has a grant on the task, the answer is 400
  \<^verbatim>\<open>User is already a collaborator\<close> and the state is unchanged, so the grant keeps its
  permission. The email is well-formed and the user is the one the email lookup finds.
\<close>

theorem post_collaborators_existing:
  assumes "t \<in> set (tasks srv)" and "created_by t = p_id user"
    and "isEmail x e" and "perm = ''read'' \<or> perm = ''write''"
    and "filter (\<lambda>p. email p = e) (profiles srv) = c # rest"
    and "g \<in> set (task_collaborators srv)" and "task_id g = t_id t" and "user_id g = p_id c"
  shows "post_collaborators x now new_id user (t_id t) \<lparr>b_email = Some e, b_permission = Some perm\<rparr> srv
           = (Response 400 (Error_json ''User is already a collaborator''), srv)"
proof -
  have v: "collaborator_errors x \<lparr>b_email = Some e, b_permission = Some perm\<rparr> = []"
    using assms(3,4) by (auto simp: collaborator_errors_def chain_defs)
  have ex: "filter (\<lambda>c'. task_id c' = t_id t \<and> user_id c' = p_id c) (task_collaborators srv) \<noteq> []"
    using assms(6,7,8) by (auto simp: filter_empty_conv)
  show ?thesis
    using v owner_query_nonempty [OF assms(1,2)] assms(5) ex
    by (simp add: post_collaborators_def Let_def)
qed

theorem post_collaborators_existing_witness:
  "draft_report \<in> set (tasks ex_server) \<and> created_by draft_report = p_id alice \<and>
   isEmail ex_ext ''bob@example.com'' \<and>
   filter (\<lambda>p. email p = ''bob@example.com'') (profiles ex_server) = bob # [] \<and>
   bob_writes \<in> set (task_collaborators ex_server) \<and> task_id bob_writes = t_id draft_report \<and>
   user_id bob_writes = p_id bob \<and>
   post_collaborators ex_ext 200 21 alice (t_id draft_report)
       \<lparr>b_email = Some ''bob@example.com'', b_permission = Some ''read''\<rparr> ex_server
     = (Response 400 (Error_json ''User is already a collaborator''), ex_server)"
proof -
  have h1: "draft_report \<in> set (tasks ex_server)" by (simp add: ex_server_def)
  have h2: "created_by draft_report = p_id alice" by (simp add: draft_report_def alice_def)
  have h3: "isEmail ex_ext ''bob@example.com''" by (simp add: ex_ext_def)
  have h4: "''read'' = ''read'' \<or> ''read'' = ''write''" by simp
  have h5: "filter (\<lambda>p. email p = ''bob@example.com'') (profiles ex_server) = bob # []"
    by (simp add: ex_server_def alice_def bob_def carol_def)
  have h6: "bob_writes \<in> set (task_collaborators ex_server)" by (simp add: ex_server_def)
  have h7: "task_id bob_writes = t_id draft_report" by (simp add: bob_writes_def draft_report_def)
  have h8: "user_id bob_writes = p_id bob" by (simp add: bob_writes_def bob_def)
  note r = post_collaborators_existing [OF h1 h2 h3 h4 h5 h6 h7 h8, of 200 21]
  from h1 h2 h3 h5 h6 h7 h8 r show ?thesis by (intro conjI)
qed

subsection \<open>Who may update a task\<close>





subsection \<open>The tasks of a user\<close>

text \<open>
  Claim C6: the list route returns exactly the tasks the user created and the tasks on
  which the user has a grant of either permission, by \<^verbatim>\<open>created_at\<close> descending, and the
  \<^verbatim>\<open>collaborators\<close> column of every row is an array, never null, which is empty when the
  task has no grant. Task ids are a primary key; when profile ids are one too, no task is
  listed twice.
\<close>

theorem get_tasks_list:
  assumes "distinct (map t_id (tasks srv))"
  shows "get_tasks user srv = (Response 200 (Rows_json (list_query srv (p_id user))), srv) \<and>
    row_task ` set (list_query srv (p_id user)) =
      {t \<in> set (tasks srv). created_by t = p_id user \<or>
         (\<exists>c \<in> set (task_collaborators srv). task_id c = t_id t \<and> user_id c = p_id user)} \<and>
    sorted_wrt (\<lambda>a b. created_at (row_task b) \<le> created_at (row_task a)) (list_query srv (p_id user)) \<and>
    (distinct (map p_id (profiles srv)) \<longrightarrow>
       distinct (map (\<lambda>row. t_id (row_task row)) (list_query srv (p_id user)))) \<and>
    (\<forall>row \<in> set (list_query srv (p_id user)).
       collaborators row \<noteq> None \<and>
       ((\<forall>c \<in> set (task_collaborators srv). task_id c \<noteq> t_id (row_task row)) \<longrightarrow>
          collaborators row = Some []))"
proof (intro conjI ballI impI)
  show "get_tasks user srv = (Response 200 (Rows_json (list_query srv (p_id user))), srv)"
    by (simp add: get_tasks_def)
  show "row_task ` set (list_query srv (p_id user)) =
      {t \<in> set (tasks srv). created_by t = p_id user \<or>
         (\<exists>c \<in> set (task_collaborators srv). task_id c = t_id t \<and> user_id c = p_id user)}"
    unfolding list_query_tasks [OF assms] list_where_iff ..
  show "sorted_wrt (\<lambda>a b. created_at (row_task b) \<le> created_at (row_task a)) (list_query srv (p_id user))"
    by (rule list_query_sorted)
next
  assume "distinct (map p_id (profiles srv))"
  with assms show "distinct (map (\<lambda>row. t_id (row_task row)) (list_query srv (p_id user)))"
    by (rule list_query_distinct)
next
  fix row assume "row \<in> set (list_query srv (p_id user))"
  then show "collaborators row \<noteq> None" by (rule list_query_collaborators(1))
next
  fix row assume "row \<in> set (list_query srv (p_id user))"
    and "\<forall>c \<in> set (task_collaborators srv). task_id c \<noteq> t_id (row_task row)"
  then show "collaborators row = Some []" by (rule list_query_collaborators(2))
qed

theorem get_tasks_list_witness:
  "distinct (map t_id (tasks ex_server)) \<and> distinct (map p_id (profiles ex_server)) \<and>
   get_tasks bob ex_server = (Response 200 (Rows_json (list_query ex_server (p_id bob))), ex_server) \<and>
   row_task ` set (list_query ex_server (p_id bob)) = {draft_report} \<and>
   row_task ` set (list_query ex_server (p_id carol)) = {} \<and>
   distinct (map (\<lambda>row. t_id (row_task row)) (list_query ex_server (p_id bob))) \<and>
   distinct (map t_id (tasks unshared)) \<and> draft_row \<in> set (list_query unshared (p_id alice)) \<and>
   collaborators draft_row = Some []"
proof -
  have h: "distinct (map t_id (tasks ex_server))" by (simp add: ex_server_def)
  have hp: "distinct (map p_id (profiles ex_server))"
    by (simp add: ex_server_def alice_def bob_def carol_def)
  note th = get_tasks_list [OF h]
  have b: "{t \<in> set (tasks ex_server). created_by t = p_id bob \<or>
         (\<exists>c \<in> set (task_collaborators ex_server). task_id c = t_id t \<and> user_id c = p_id bob)}
        = {draft_report}"
    by (auto simp: ex_defs)
  have c: "{t \<in> set (tasks ex_server). created_by t = p_id carol \<or>
         (\<exists>c \<in> set (task_collaborators ex_server). task_id c = t_id t \<and> user_id c = p_id carol)}
        = {}"
    by (auto simp: ex_defs)
  from th [of bob, THEN conjunct2, THEN conjunct1] b
  have rb: "row_task ` set (list_query ex_server (p_id bob)) = {draft_report}" by (rule trans)
  from th [of carol, THEN conjunct2, THEN conjunct1] c
  have rc: "row_task ` set (list_query ex_server (p_id carol)) = {}" by (rule trans)
  note db = th [of bob, THEN conjunct2, THEN conjunct2, THEN conjunct2, THEN conjunct1, THEN mp, OF hp]
  have hu: "distinct (map t_id (tasks unshared))" by (simp add: unshared_def ex_server_def)
  have l: "list_query unshared (p_id alice) = [draft_row]"
    by (simp add: list_query_def list_from_def left_join_def group_by_def select_row_def list_key_def
        list_where_def agg_collaborators_def json_agg_def coalesce_def unshared_def draft_row_def ex_defs)
  then have m: "draft_row \<in> set (list_query unshared (p_id alice))" by simp
  have n: "\<forall>c \<in> set (task_collaborators unshared). task_id c \<noteq> t_id (row_task draft_row)"
    by (simp add: unshared_def)
  note e = get_tasks_list [OF hu, of alice, THEN conjunct2, THEN conjunct2, THEN conjunct2,
      THEN conjunct2, THEN bspec, OF m, THEN conjunct2, THEN mp, OF n]
  from h hp th [of bob, THEN conjunct1] rb rc db hu m e show ?thesis by (intro conjI)
qed

subsection \<open>Searching users\<close>

text \<open>
  Claim C7: the search returns only users whose email or name contains the query. The
  query is put into the \<^verbatim>\<open>ILIKE\<close> pattern as it is, so its \<^verbatim>\<open>_\<close> and \<^verbatim>\<open>%\<close> are wildcards: for the
  queries \<^verbatim>\<open>__\<close> and \<^verbatim>\<open>%%\<close> the search returns Bob and Carol, whose emails and names have no
  \<^verbatim>\<open>_\<close> and no \<^verbatim>\<open>%\<close>.
\<close>

theorem get_search_users_wildcard:
  "fst (get_search_users alice (Some ''__'') ex_server) = Response 200 (Users_json [bob, carol]) \<and>
   CHR ''_'' \<notin> set (email bob) \<and> CHR ''_'' \<notin> set (name bob) \<and>
   CHR ''_'' \<notin> set (email carol) \<and> CHR ''_'' \<notin> set (name carol) \<and>
   fst (get_search_users alice (Some ''%%'') ex_server) = Response 200 (Users_json [bob, carol]) \<and>
   CHR ''%'' \<notin> set (email bob) \<and> CHR ''%'' \<notin> set (name bob) \<and>
   CHR ''%'' \<notin> set (email carol) \<and> CHR ''%'' \<notin> set (name carol)"
proof -
  have underscores:
    "fst (get_search_users alice (Some ''__'') ex_server) = Response 200 (Users_json [bob, carol])"
    by (simp add: get_search_users_def search_query_def ilike_def lower_def lower_char_def
        storable_def ex_defs)
  have percents:
    "fst (get_search_users alice (Some ''%%'') ex_server) = Response 200 (Users_json [bob, carol])"
    by (simp add: get_search_users_def search_query_def ilike_def lower_def lower_char_def
        storable_def ex_defs like_match_percents del: like_match.simps)
  have plain: "CHR ''_'' \<notin> set (email bob) \<and> CHR ''_'' \<notin> set (name bob) \<and>
      CHR ''_'' \<notin> set (email carol) \<and> CHR ''_'' \<notin> set (name carol)"
    "CHR ''%'' \<notin> set (email bob) \<and> CHR ''%'' \<notin> set (name bob) \<and>
      CHR ''%'' \<notin> set (email carol) \<and> CHR ''%'' \<notin> set (name carol)"
    by (simp_all add: bob_def carol_def)
  from underscores percents plain show ?thesis by simp
qed

subsection \<open>Creating a task\<close>




subsection \<open>A created task on the client\<close>

text \<open>
  Claim C9, as amended: the \<^verbatim>\<open>task_created\<close> listener puts the task of the event at the head
  of the list whether or not a task with its id is there already, so the list has one
  more task with that id than before.
\<close>

theorem task_created_prepends:
  "task_created d prev = d # prev \<and>
   task_created d (task_created d prev) = d # d # prev \<and>
   length (filter (\<lambda>t. t ''id'' = d ''id'') (task_created d prev)) =
     Suc (length (filter (\<lambda>t. t ''id'' = d ''id'') prev))"
  by (simp add: task_created_def)

text \<open>
  The claim as stated has the listener skip a task whose id is present: after the event
  for a task of the list, the list has its id twice.
\<close>

theorem task_created_counterexample:
  "distinct (map (\<lambda>t. t ''id'') [local_task, other_task]) \<and>
   local_task ''id'' = snapshot ''id'' \<and>
   \<not> distinct (map (\<lambda>t. t ''id'') (task_created snapshot [local_task, other_task])) \<and>
   length (task_created snapshot [local_task, other_task]) = 3"
  by (simp add: task_created_def local_task_def other_task_def snapshot_def)

subsection \<open>An updated task on the client\<close>

text \<open>
  Claim C10: the \<^verbatim>\<open>task_updated\<close> listener keeps the length of the list, leaves every task
  with another id as it is, leaves every field that the task of the event does not have as
  it is, \<^verbatim>\<open>creator_name\<close> and \<^verbatim>\<open>collaborators\<close> among them, and gives the task with the id of
  the event the value of the event in every field the event has.
\<close>

theorem task_updated_frame:
  assumes "i < length prev"
  shows "length (task_updated d prev) = length prev \<and>
         (\<not> strict_equal ((prev ! i) ''id'') (d ''id'') \<longrightarrow> task_updated d prev ! i = prev ! i) \<and>
         (\<forall>k. k \<notin> dom d \<longrightarrow> (task_updated d prev ! i) k = (prev ! i) k) \<and>
         (strict_equal ((prev ! i) ''id'') (d ''id'') \<longrightarrow>
            (\<forall>k \<in> dom d. (task_updated d prev ! i) k = d k))"
  using assms by (auto simp: task_updated_def map_add_def split: option.splits)

theorem task_updated_frame_witness:
  "(0::nat) < length [local_task, other_task] \<and>
   length (task_updated snapshot [local_task, other_task]) = length [local_task, other_task] \<and>
   (task_updated snapshot [local_task, other_task] ! 0) ''creator_name'' = Some (JString ''Alice'') \<and>
   (task_updated snapshot [local_task, other_task] ! 0) ''collaborators'' = Some (JArray [JString ''bob'']) \<and>
   (task_updated snapshot [local_task, other_task] ! 0) ''status'' = Some (JString ''completed'') \<and>
   task_updated snapshot [local_task, other_task] ! 1 = other_task"
proof -
  have h0: "(0::nat) < length [local_task, other_task]" by simp
  have h1: "(1::nat) < length [local_task, other_task]" by simp
  note t0 = task_updated_frame [OF h0, of snapshot]
  note t1 = task_updated_frame [OF h1, of snapshot]
  have m: "strict_equal (([local_task, other_task] ! 0) ''id'') (snapshot ''id'')"
    by (simp add: local_task_def snapshot_def)
  have n: "\<not> strict_equal (([local_task, other_task] ! 1) ''id'') (snapshot ''id'')"
    by (simp add: other_task_def snapshot_def)
  have k1: "''creator_name'' \<notin> dom snapshot" by (simp add: snapshot_def)
  have k2: "''collaborators'' \<notin> dom snapshot" by (simp add: snapshot_def)
  have k3: "''status'' \<in> dom snapshot" by (simp add: snapshot_def)
  from t0 [THEN conjunct2, THEN conjunct2, THEN conjunct1, rule_format, OF k1]
  have a: "(task_updated snapshot [local_task, other_task] ! 0) ''creator_name'' = Some (JString ''Alice'')"
    by (simp add: local_task_def)
  from t0 [THEN conjunct2, THEN conjunct2, THEN conjunct1, rule_format, OF k2]
  have b: "(task_updated snapshot [local_task, other_task] ! 0) ''collaborators'' = Some (JArray [JString ''bob''])"
    by (simp add: local_task_def)
  from t0 [THEN conjunct2, THEN conjunct2, THEN conjunct2, rule_format, OF m k3]
  have c: "(task_updated snapshot [local_task, other_task] ! 0) ''status'' = Some (JString ''completed'')"
    by (simp add: snapshot_def)
  from t1 [THEN conjunct2, THEN conjunct1, rule_format, OF n]
  have d: "task_updated snapshot [local_task, other_task] ! 1 = other_task" by simp
  from h0 t0 [THEN conjunct1] a b c d show ?thesis by (intro conjI)
qed

end
